theory Spec2Isabelle
  imports Complex_Main
begin

unbundle bit_operations_syntax

section \<open>The static scheduler generator \<^verbatim>\<open>tools/sched/sched.c\<close>\<close>

text \<open>
  The generator reads task declarations \<^verbatim>\<open>name period length\<close>, places every task
  into the slots of a table of unrolled interrupt handlers (``ticks'') and writes the
  handlers out as C code.  The embedding below follows \<^verbatim>\<open>sched.c\<close> function by function.

  Conventions of the embedding:
  \<^item> the global variables of \<^verbatim>\<open>sched.c\<close> are the fields of the record \<open>sched\<close>, passed
    explicitly;
  \<^item> \<^verbatim>\<open>unsigned int\<close> values are natural numbers; where a 32-bit addition or subtraction
    may wrap, it is computed on the integers and reduced modulo \<open>2 ^ 32\<close>;
  \<^item> \<^verbatim>\<open>double\<close> values are real numbers and the arithmetic on them is exact (its
    rounding is not modelled); the narrowing of a length to \<^verbatim>\<open>float\<close> is modelled, by
    \<open>to_float\<close>;
  \<^item> an array with its element counter (\<^verbatim>\<open>tasks\<close>/\<^verbatim>\<open>n_tasks\<close>, \<^verbatim>\<open>slots\<close>/\<^verbatim>\<open>n_slots\<close>) is a
    list whose length is the counter; a pointer to a task is the index of the task;
  \<^item> every way the C program stops is a value of type \<open>error\<close>: \<^verbatim>\<open>exit (1)\<close> after a
    diagnostic, an integer division by zero, a null pointer dereference, an access outside
    an array.
\<close>

subsection \<open>Constants\<close>

definition MAX_ID :: nat where "MAX_ID = 128"
definition MAX_TICKS :: nat where "MAX_TICKS = 32"
definition MAX_SLOTS_PER_TICK :: nat where "MAX_SLOTS_PER_TICK = 32"
definition MAX_TASKS :: nat where "MAX_TASKS = 64"
definition CYCLES_PER_TICK :: nat where "CYCLES_PER_TICK = 1952"
definition cycles_per_interrupt :: nat where "cycles_per_interrupt = CYCLES_PER_TICK"

subsection \<open>Data\<close>

text \<open>A task: the source's fields \<^verbatim>\<open>name\<close>, \<^verbatim>\<open>period\<close>, \<^verbatim>\<open>len\<close>,
  \<^verbatim>\<open>already_unrolled_count\<close> and \<^verbatim>\<open>n_slots\<close>.\<close>

record task =
  task_name :: string
  task_period :: nat
  task_len :: real
  already_unrolled_count :: int
  n_slots :: nat

text \<open>A slot is one call of a task: the source's fields \<^verbatim>\<open>divider\<close> and \<^verbatim>\<open>task\<close>, the
  pointer to the task being its index in the task table.\<close>

record slot =
  slot_divider :: nat
  slot_task :: nat

text \<open>A tick is one interrupt handler.  The source's \<^verbatim>\<open>n_slots\<close> is \<open>length (slots t)\<close>
  and its \<^verbatim>\<open>len\<close> is \<open>tick_len\<close>.\<close>

record tick =
  slots :: "slot list"
  tick_len :: real

record sched =
  n_ticks :: nat
  ticks :: "tick list"
  tasks :: "task list"
  max_ticks :: nat
  max_divider :: nat
  conditionals :: "string list"

datatype error =
    Exit_too_many_slots         \<comment> \<open>\<^verbatim>\<open>error: too many tasks scheduled in same tick\<close>, exit (1)\<close>
  | Exit_period_too_large       \<comment> \<open>\<^verbatim>\<open>error: period too large\<close>, exit (1)\<close>
  | Exit_invalid_period         \<comment> \<open>\<^verbatim>\<open>error: invalid period ... (must be power of 2)\<close>, exit (1)\<close>
  | Exit_length_ge_period       \<comment> \<open>\<^verbatim>\<open>error: ... has length greater than its period\<close>, exit (1)\<close>
  | Div_by_zero                 \<comment> \<open>unsigned integer division by zero\<close>
  | Null_deref                  \<comment> \<open>\<^verbatim>\<open>strlen (NULL)\<close>\<close>
  | Task_table_overrun          \<comment> \<open>write to \<^verbatim>\<open>tasks[n]\<close> with \<open>n \<ge> MAX_TASKS\<close>\<close>
  | Name_overrun                \<comment> \<open>\<^verbatim>\<open>strcpy\<close> of a name of \<open>MAX_ID\<close> or more characters\<close>
  | Read_before_string          \<comment> \<open>read of a byte in front of the string\<close>
  | Cast_out_of_range           \<comment> \<open>conversion to \<^verbatim>\<open>unsigned int\<close> of a value it cannot hold\<close>

text \<open>The errors that are a diagnostic on \<^verbatim>\<open>stderr\<close> followed by \<^verbatim>\<open>exit (1)\<close>.\<close>

fun fatal_diagnostic :: "error \<Rightarrow> bool" where
  "fatal_diagnostic Exit_too_many_slots = True"
| "fatal_diagnostic Exit_period_too_large = True"
| "fatal_diagnostic Exit_invalid_period = True"
| "fatal_diagnostic Exit_length_ge_period = True"
| "fatal_diagnostic _ = False"

text \<open>The state of the globals when \<^verbatim>\<open>main\<close> has called \<^verbatim>\<open>init_schedule\<close>: the static
  tables are zeroed, \<^verbatim>\<open>max_ticks\<close> is 8 unless \<^verbatim>\<open>-M\<close> changes it, \<^verbatim>\<open>max_divider\<close> is 1.\<close>

definition empty_tick :: tick where
  "empty_tick = \<lparr>slots = [], tick_len = 0\<rparr>"

definition init_schedule :: "nat \<Rightarrow> string list \<Rightarrow> sched" where
  "init_schedule M conds =
     \<lparr>n_ticks = 0, ticks = replicate MAX_TICKS empty_tick, tasks = [],
      max_ticks = M, max_divider = 1, conditionals = conds\<rparr>"

subsection \<open>\<^verbatim>\<open>expand_ticks\<close>\<close>

text \<open>
  The requested width is capped by \<^verbatim>\<open>max_ticks\<close> and then not used: \<^verbatim>\<open>n_ticks\<close> is set to
  8, and the first \<^verbatim>\<open>n_ticks\<close> ticks are cleared.
\<close>

definition clear_ticks :: "nat \<Rightarrow> tick list \<Rightarrow> tick list" where
  "clear_ticks n ts =
     fold (\<lambda>tickno ts. ts[tickno := (ts ! tickno)\<lparr>slots := [], tick_len := 0\<rparr>]) [0..<n] ts"

definition expand_ticks :: "nat \<Rightarrow> sched \<Rightarrow> sched" where
  "expand_ticks new_tick_count s =
     (let new_tick_count = (if new_tick_count > max_ticks s then max_ticks s else new_tick_count);
          s = s\<lparr>n_ticks := 8\<rparr>
      in s\<lparr>ticks := clear_ticks (n_ticks s) (ticks s)\<rparr>)"

subsection \<open>\<^verbatim>\<open>find_best_tick\<close>\<close>

text \<open>The body of the inner loop: the cost that bucket \<open>tickno + (n_ticks / count) * index\<close>
  adds to \<^verbatim>\<open>total_len\<close>.\<close>

definition candidate_len :: "sched \<Rightarrow> nat \<Rightarrow> nat \<Rightarrow> real \<Rightarrow> nat \<Rightarrow> nat \<Rightarrow> real" where
  "candidate_len s period count len tickno index =
     (let c = tick_len (ticks s ! (tickno + (n_ticks s div count) * index))
      in if c + len \<ge> 1 then 99999
         else if period > n_ticks s \<and> tickno = n_ticks s div count - 1 then - 1
         else c)"

text \<open>The inner loop.\<close>

definition total_len :: "sched \<Rightarrow> nat \<Rightarrow> nat \<Rightarrow> real \<Rightarrow> nat \<Rightarrow> real" where
  "total_len s period count len tickno =
     fold (\<lambda>index total. total + candidate_len s period count len tickno index) [0..<count] 0"

text \<open>The outer loop, on the pair \<open>(best, best_len)\<close>.\<close>

definition best_step :: "sched \<Rightarrow> nat \<Rightarrow> nat \<Rightarrow> real \<Rightarrow> nat \<Rightarrow> nat \<times> real \<Rightarrow> nat \<times> real" where
  "best_step s period count len tickno b =
     (let total = total_len s period count len tickno
      in if total < snd b then (tickno, total) else b)"

definition find_best_tick :: "nat \<Rightarrow> nat \<Rightarrow> real \<Rightarrow> sched \<Rightarrow> error + nat" where
  "find_best_tick period count len s =
     (if count = 0 then Inl Div_by_zero
      else Inr (fst (fold (best_step s period count len) [0..<n_ticks s div count] (0, 99999))))"

subsection \<open>\<^verbatim>\<open>alloc_slot\<close>\<close>

text \<open>The source returns a pointer to the new slot and the caller fills it in; here the
  slot is passed in and appended.\<close>

definition alloc_slot :: "nat \<Rightarrow> slot \<Rightarrow> sched \<Rightarrow> error + sched" where
  "alloc_slot tickno sl s =
     (let tick = ticks s ! tickno
      in if length (slots tick) + 1 = MAX_SLOTS_PER_TICK then Inl Exit_too_many_slots
         else Inr (s\<lparr>ticks := (ticks s)[tickno := tick\<lparr>slots := slots tick @ [sl]\<rparr>]\<rparr>))"

subsection \<open>\<^verbatim>\<open>add_task\<close>\<close>

text \<open>The test for a conditional: the name up to the first \<^verbatim>\<open>?\<close> if what follows it is a
  defined conditional, the whole name if it has no \<^verbatim>\<open>?\<close>, and \<open>None\<close> (the entry is skipped
  with a warning) otherwise.\<close>

definition strip_conditional :: "string list \<Rightarrow> string \<Rightarrow> string option" where
  "strip_conditional conds nm =
     (case dropWhile (\<lambda>ch. ch \<noteq> CHR ''?'') nm of
        [] \<Rightarrow> Some nm
      | _ # c \<Rightarrow> if c \<in> set conds then Some (takeWhile (\<lambda>ch. ch \<noteq> CHR ''?'') nm) else None)"

text \<open>Names of the form \<^verbatim>\<open>function/d\<close>: \<^verbatim>\<open>end = name + strlen (name) - 2\<close>.  For a name
  shorter than two characters the source reads a byte in front of the name, outside the
  string; the embedding stops there with \<open>Read_before_string\<close>, so that nothing is stated
  about what the program does after such a read.  The digit is read as an unsigned
  character.\<close>

definition strip_unrolled :: "string \<Rightarrow> error + string \<times> int" where
  "strip_unrolled nm =
     (if length nm < 2 then Inl Read_before_string
      else if nm ! (length nm - 2) = CHR ''/''
        then Inr (take (length nm - 2) nm, int (of_char (nm ! (length nm - 1))) - 48)
        else Inr (nm, 0))"

text \<open>The loop that creates the slots.\<close>

fun place_slots :: "nat \<Rightarrow> nat \<Rightarrow> nat \<Rightarrow> nat \<Rightarrow> nat \<Rightarrow> sched \<Rightarrow> error + sched" where
  "place_slots 0 base divider t period s = Inr s"
| "place_slots (Suc count) base divider t period s =
     (case alloc_slot base \<lparr>slot_divider = divider, slot_task = t\<rparr> s of
        Inl e \<Rightarrow> Inl e
      | Inr s1 \<Rightarrow>
          let tk = tasks s1 ! t;
              s2 = s1\<lparr>tasks := (tasks s1)[t := tk\<lparr>n_slots := n_slots tk + 1\<rparr>]\<rparr>;
              tick = ticks s2 ! base;
              s3 = s2\<lparr>ticks := (ticks s2)[base :=
                     tick\<lparr>tick_len := tick_len tick + task_len tk / real divider\<rparr>]\<rparr>
          in if n_ticks s3 = 0 then Inl Div_by_zero
             else place_slots count (nat ((int base + int period) mod 2 ^ 32) mod n_ticks s3)
                    divider t period s3)"

text \<open>The slot count and the divider of a task, with the state after a possible
  expansion of the tick table.\<close>

definition slot_count :: "nat \<Rightarrow> sched \<Rightarrow> error + (nat \<times> nat \<times> sched)" where
  "slot_count period s =
     (if period > n_ticks s then
        if period \<le> max_ticks s then
          let s = expand_ticks period s in Inr (n_ticks s div period, 1, s)
        else if n_ticks s = 0 then Inl Div_by_zero
        else
          let divider = period div n_ticks s
          in if divider > max_divider s then
               if divider \<ge> 256 then Inl Exit_period_too_large
               else Inr (1, divider, s\<lparr>max_divider := divider\<rparr>)
             else Inr (1, divider, s)
      else if period = 0 then Inl Div_by_zero
      else Inr (n_ticks s div period, 1, s))"

definition add_task :: "string \<Rightarrow> nat \<Rightarrow> real \<Rightarrow> sched \<Rightarrow> error + sched" where
  "add_task nm period len s =
     (case strip_conditional (conditionals s) nm of
        None \<Rightarrow> Inr s
      | Some nm \<Rightarrow>
         (case strip_unrolled nm of
            Inl e \<Rightarrow> Inl e
          | Inr (nm, unrolled) \<Rightarrow>
              if length (tasks s) \<ge> MAX_TASKS then Inl Task_table_overrun
              else if length nm \<ge> MAX_ID then Inl Name_overrun
              else
                let t = length (tasks s);
                    s = s\<lparr>tasks := tasks s @
                          [\<lparr>task_name = nm, task_period = period, task_len = len,
                            already_unrolled_count = unrolled, n_slots = 0\<rparr>]\<rparr>
                in (case slot_count period s of
                      Inl e \<Rightarrow> Inl e
                    | Inr (count, divider, s) \<Rightarrow>
                       (case find_best_tick period count len s of
                          Inl e \<Rightarrow> Inl e
                        | Inr base \<Rightarrow> place_slots count base divider t period s))))"

subsection \<open>\<^verbatim>\<open>parse_time\<close>\<close>

text \<open>
  \<^verbatim>\<open>parse_time\<close> calls the C library's \<^verbatim>\<open>strtod\<close> with a null end pointer, so all it gets
  is the value; \<^verbatim>\<open>strtod\<close> is a parameter of the embedding.  The argument is the result
  of \<^verbatim>\<open>strtok\<close>, which is \<^verbatim>\<open>NULL\<close> (here \<open>None\<close>) when the line has no further token.
\<close>

definition parse_time :: "(string \<Rightarrow> real) \<Rightarrow> string option \<Rightarrow> error + real" where
  "parse_time strtod tok =
     (case tok of
        None \<Rightarrow> Inl Null_deref
      | Some str \<Rightarrow>
          if str = [] then Inl Read_before_string
          else if last str = CHR ''c'' \<or> last str = CHR ''C''
            then Inr (strtod str / (1 * real cycles_per_interrupt))
            else Inr (strtod str))"

text \<open>
  What \<^verbatim>\<open>strtod\<close> computes on decimal input, after the C standard: white space, an optional
  sign, digits with an optional decimal point (at least one digit), an optional exponent;
  the value 0 when no conversion can be performed.  Hexadecimal input, infinities and NaN
  are left out, and the result is not rounded to a \<^verbatim>\<open>double\<close>.
\<close>

definition isspace :: "char \<Rightarrow> bool" where
  "isspace c \<longleftrightarrow> c = CHR '' '' \<or> (9::nat) \<le> of_char c \<and> (of_char c :: nat) \<le> 13"

definition isdigit :: "char \<Rightarrow> bool" where
  "isdigit c \<longleftrightarrow> (48::nat) \<le> of_char c \<and> (of_char c :: nat) \<le> 57"

definition digits_value :: "string \<Rightarrow> nat" where
  "digits_value ds = foldl (\<lambda>a c. 10 * a + (of_char c - 48)) 0 ds"

definition skip_sign :: "string \<Rightarrow> string" where
  "skip_sign str = (case str of [] \<Rightarrow> [] | c # cs \<Rightarrow> if c = CHR ''-'' \<or> c = CHR ''+'' then cs else str)"

definition negative :: "string \<Rightarrow> bool" where
  "negative str = (case str of [] \<Rightarrow> False | c # cs \<Rightarrow> c = CHR ''-'')"

definition exponent :: "string \<Rightarrow> int" where
  "exponent str =
     (case str of
        [] \<Rightarrow> 0
      | c # cs \<Rightarrow>
          if c = CHR ''e'' \<or> c = CHR ''E'' then
            let ds = takeWhile isdigit (skip_sign cs)
            in if negative cs then - int (digits_value ds) else int (digits_value ds)
          else 0)"

definition numeric_prefix :: "string \<Rightarrow> real option" where
  "numeric_prefix str =
     (let s1 = dropWhile isspace str;
          s2 = skip_sign s1;
          ip = takeWhile isdigit s2;
          r1 = dropWhile isdigit s2;
          point = (r1 \<noteq> [] \<and> hd r1 = CHR ''.'');
          fp = (if point then takeWhile isdigit (tl r1) else []);
          r2 = (if point then dropWhile isdigit (tl r1) else r1);
          e = exponent r2;
          m = real (digits_value (ip @ fp)) / 10 ^ length fp;
          v = (if e < 0 then m / 10 ^ nat (- e) else m * 10 ^ nat e)
      in if ip = [] \<and> fp = [] then None
         else Some (if negative s1 then - v else v))"

definition strtod_dec :: "string \<Rightarrow> real" where
  "strtod_dec str = (case numeric_prefix str of None \<Rightarrow> 0 | Some v \<Rightarrow> v)"

subsection \<open>\<^verbatim>\<open>parse_schedule\<close>\<close>

text \<open>\<^verbatim>\<open>strtok\<close> with the delimiters space, tab and newline: the tokens of a line, in order.
  A C string ends at its first NUL.\<close>

definition is_delim :: "char \<Rightarrow> bool" where
  "is_delim c \<longleftrightarrow> c = CHR '' '' \<or> c = CHR 0x09 \<or> c = CHR 0x0A"

fun split_tokens :: "string \<Rightarrow> string \<Rightarrow> string list" where
  "split_tokens cur [] = (if cur = [] then [] else [rev cur])"
| "split_tokens cur (c # cs) =
     (if is_delim c then (if cur = [] then split_tokens [] cs else rev cur # split_tokens [] cs)
      else split_tokens (c # cur) cs)"

definition strtok :: "string \<Rightarrow> string list" where
  "strtok line = split_tokens [] (takeWhile (\<lambda>c. c \<noteq> CHR 0x00) line)"

definition nth_token :: "string list \<Rightarrow> nat \<Rightarrow> string option" where
  "nth_token toks i = (if i < length toks then Some (toks ! i) else None)"

text \<open>The conversion \<^verbatim>\<open>(unsigned int) x\<close> of a \<^verbatim>\<open>double\<close>: the fraction is discarded; the
  conversion is undefined when the result is not a value of the type.\<close>

definition to_uint :: "real \<Rightarrow> error + nat" where
  "to_uint x = (if - 1 < x \<and> x < 2 ^ 32 then Inr (nat \<lfloor>x\<rfloor>) else Inl Cast_out_of_range)"

text \<open>The test \<^verbatim>\<open>period & (period - 1)\<close> on 32-bit unsigned values.\<close>

definition not_power_of_2 :: "nat \<Rightarrow> bool" where
  "not_power_of_2 period \<longleftrightarrow> int period AND ((int period - 1) mod 2 ^ 32) \<noteq> 0"

text \<open>
  The length is stored in a \<^verbatim>\<open>float\<close>: the conversion of a \<^verbatim>\<open>double\<close> to the 32-bit format
  (24 bits of precision, least exponent \<open>-126\<close>) rounds to the nearest value of the format,
  to the one with an even last bit when two are equally near.  \<open>bits n\<close> is the number of
  binary digits of \<open>n\<close>, \<open>pow2 e\<close> is \<open>2\<close> to the power \<open>e\<close>.  A value beyond the range of the
  format, which C converts to an infinity, is represented by \<open>2 ^ 128\<close> with its sign.
\<close>

definition round_half_even :: "real \<Rightarrow> int" where
  "round_half_even y =
     (let f = \<lfloor>y\<rfloor>; d = y - of_int f
      in if d < 1 / 2 then f else if 1 / 2 < d then f + 1 else if even f then f else f + 1)"

function bits :: "int \<Rightarrow> nat" where
  "bits n = (if n \<le> 0 then 0 else Suc (bits (n div 2)))"
  by pat_completeness auto
termination
  by (relation "measure nat") auto

definition pow2 :: "int \<Rightarrow> real" where
  "pow2 e = (if 0 \<le> e then of_int (2 ^ nat e) else 1 / of_int (2 ^ nat (- e)))"

definition to_float :: "real \<Rightarrow> real" where
  "to_float x =
     (if x = 0 then 0
      else
        let a = \<bar>x\<bar>;
            e = (if a < 1 then max (- int (bits \<lfloor>1 / a\<rfloor>)) (- 126) else int (bits \<lfloor>a\<rfloor>) - 1);
            r = of_int (round_half_even (a * pow2 (23 - e))) * pow2 (e - 23)
        in if pow2 128 \<le> r then sgn x * pow2 128 else sgn x * r)"

text \<open>The body of the loop over the lines of the file.  The length is narrowed to \<^verbatim>\<open>float\<close>
  (\<^verbatim>\<open>float len\<close>) before it is compared with the period and passed to \<^verbatim>\<open>add_task\<close>.\<close>

definition parse_line :: "(string \<Rightarrow> real) \<Rightarrow> string \<Rightarrow> sched \<Rightarrow> error + sched" where
  "parse_line strtod line s =
     (let toks = strtok line
      in case nth_token toks 0 of
           None \<Rightarrow> Inr s
         | Some nm \<Rightarrow>
             if hd nm = CHR ''#'' then Inr s
             else
               (case parse_time strtod (nth_token toks 1) of
                  Inl e \<Rightarrow> Inl e
                | Inr p \<Rightarrow>
                   (case to_uint p of
                      Inl e \<Rightarrow> Inl e
                    | Inr period \<Rightarrow>
                        if not_power_of_2 period then Inl Exit_invalid_period
                        else
                          (case parse_time strtod (nth_token toks 2) of
                             Inl e \<Rightarrow> Inl e
                           | Inr l \<Rightarrow>
                               let len = to_float l
                               in if len \<ge> real period then Inl Exit_length_ge_period
                                  else add_task nm period len s))))"

text \<open>The loop: the lines are those \<^verbatim>\<open>fgets\<close> delivers before the end of the file is
  reached; the first error ends the program.\<close>

fun parse_schedule :: "(string \<Rightarrow> real) \<Rightarrow> string list \<Rightarrow> sched \<Rightarrow> error + sched" where
  "parse_schedule strtod [] s = Inr s"
| "parse_schedule strtod (line # rest) s =
     (case parse_line strtod line s of
        Inl e \<Rightarrow> Inl e
      | Inr s \<Rightarrow> parse_schedule strtod rest s)"

subsection \<open>\<^verbatim>\<open>write_tick_driver\<close>\<close>

text \<open>
  The emitter writes C text.  The embedding keeps the structure of that text and leaves
  the layout out: a handler is the statements of its body, followed by the optional
  \<^verbatim>\<open><prefix>_divider++\<close> and the optional assignment to \<^verbatim>\<open><prefix>_function\<close>.  The warnings
  on \<^verbatim>\<open>stderr\<close> and the comments are not modelled.
\<close>

datatype stmt =
    Call bool string "nat option"
      \<comment> \<open>\<^verbatim>\<open>name ();\<close> or \<^verbatim>\<open>name_<suffix> ();\<close>, after an \<^verbatim>\<open>extern\<close> declaration if the flag is set\<close>
  | If_divider nat "stmt list"
      \<comment> \<open>\<^verbatim>\<open>if (!(<prefix>_divider & mask)) { ... }\<close>\<close>

record handler =
  body :: "stmt list"
  divider_inc :: bool
  set_function :: "nat option"

text \<open>The emitted program: the handlers \<^verbatim>\<open><prefix>_0\<close>, \<^verbatim>\<open><prefix>_1\<close>, ...; the values that
  \<^verbatim>\<open><prefix>_init\<close> gives to \<^verbatim>\<open><prefix>_function\<close> and \<^verbatim>\<open><prefix>_divider\<close>.  The driver
  \<^verbatim>\<open><prefix>_driver\<close> jumps to the handler \<^verbatim>\<open><prefix>_function\<close> points to.\<close>

record program =
  handlers :: "handler list"
  init_function :: nat
  init_divider :: nat

text \<open>The values of \<^verbatim>\<open>div\<close> in \<^verbatim>\<open>for (div = 1; div <= max_divider; div *= 2)\<close>.  The test
  \<open>d = 0\<close> is there for termination only.\<close>

function dividers :: "nat \<Rightarrow> nat \<Rightarrow> nat list" where
  "dividers d m = (if d = 0 \<or> d > m then [] else d # dividers (2 * d) m)"
  by pat_completeness auto
termination
  by (relation "measure (\<lambda>(d, m). Suc m - d)") auto

text \<open>The call of the task of a slot in tick \<open>n\<close>.\<close>

definition emit_call :: "task list \<Rightarrow> nat \<Rightarrow> slot \<Rightarrow> error + stmt" where
  "emit_call tks n sl =
     (let tk = tks ! slot_task sl;
          inline_p = (task_name tk \<noteq> [] \<and> hd (task_name tk) = CHR ''!'');
          task_name = (if inline_p then tl (task_name tk) else task_name tk)
      in if already_unrolled_count tk \<noteq> 0 then
           let m = (already_unrolled_count tk * int (task_period tk)) mod 2 ^ 32
           in if m = 0 \<or> task_period tk = 0 then Inl Div_by_zero
              else Inr (Call (\<not> inline_p) task_name
                          (Some (nat ((int n mod m) div int (task_period tk)))))
         else Inr (Call (\<not> inline_p) task_name None))"

text \<open>The calls of the slots of a tick whose divider is \<open>d\<close>, in slot order.\<close>

fun emit_slots :: "task list \<Rightarrow> nat \<Rightarrow> nat \<Rightarrow> slot list \<Rightarrow> error + stmt list" where
  "emit_slots tks n d [] = Inr []"
| "emit_slots tks n d (sl # sls) =
     (if slot_divider sl = d then
        (case emit_call tks n sl of
           Inl e \<Rightarrow> Inl e
         | Inr c \<Rightarrow> (case emit_slots tks n d sls of Inl e \<Rightarrow> Inl e | Inr cs \<Rightarrow> Inr (c # cs)))
      else emit_slots tks n d sls)"

text \<open>The loop over the dividers.  A block that is opened for a divider is closed after
  the loop only, so what later dividers emit lies inside it.\<close>

fun emit_body :: "task list \<Rightarrow> nat \<Rightarrow> slot list \<Rightarrow> nat list \<Rightarrow> error + stmt list" where
  "emit_body tks n sls [] = Inr []"
| "emit_body tks n sls (d # ds) =
     (case emit_slots tks n d sls of
        Inl e \<Rightarrow> Inl e
      | Inr cs \<Rightarrow>
         (case emit_body tks n sls ds of
            Inl e \<Rightarrow> Inl e
          | Inr rest \<Rightarrow>
              if d > 1 \<and> cs \<noteq> [] then Inr [If_divider (d - 1) (cs @ rest)]
              else Inr (cs @ rest)))"

definition emit_handler :: "sched \<Rightarrow> nat \<Rightarrow> error + handler" where
  "emit_handler s n =
     (case emit_body (tasks s) n (slots (ticks s ! n)) (dividers 1 (max_divider s)) of
        Inl e \<Rightarrow> Inl e
      | Inr b \<Rightarrow>
          Inr \<lparr>body = b,
               divider_inc = (n = n_ticks s - 1 \<and> max_divider s > 1),
               set_function = (if n_ticks s > 1 then Some ((n + 1) mod n_ticks s) else None)\<rparr>)"

fun emit_handlers :: "sched \<Rightarrow> nat list \<Rightarrow> error + handler list" where
  "emit_handlers s [] = Inr []"
| "emit_handlers s (n # ns) =
     (case emit_handler s n of
        Inl e \<Rightarrow> Inl e
      | Inr h \<Rightarrow> (case emit_handlers s ns of Inl e \<Rightarrow> Inl e | Inr hs \<Rightarrow> Inr (h # hs)))"

definition write_tick_driver :: "sched \<Rightarrow> error + program" where
  "write_tick_driver s =
     (case emit_handlers s [0..<n_ticks s] of
        Inl e \<Rightarrow> Inl e
      | Inr hs \<Rightarrow> Inr \<lparr>handlers = hs, init_function = 0, init_divider = 0\<rparr>)"

subsection \<open>The emitted dispatcher at run time\<close>

text \<open>
  One interrupt calls \<^verbatim>\<open><prefix>_driver\<close>, which jumps to the handler that
  \<^verbatim>\<open><prefix>_function\<close> points to; the handler runs its calls and then executes its
  assignment to \<^verbatim>\<open><prefix>_function\<close>, if it has one.  The called tasks are taken not to
  write the variable.  \<open>next_function p f\<close> is the value of the variable after the
  interrupt that found it at \<open>f\<close>; there is none if the program has no handler \<open>f\<close>.
\<close>

definition next_function :: "program \<Rightarrow> nat \<Rightarrow> nat option" where
  "next_function p f =
     (if f < length (handlers p)
      then Some (case set_function (handlers p ! f) of None \<Rightarrow> f | Some g \<Rightarrow> g)
      else None)"

text \<open>The value of \<^verbatim>\<open><prefix>_function\<close> after \<^verbatim>\<open><prefix>_init\<close> and \<open>k\<close> interrupts.\<close>

fun function_after :: "program \<Rightarrow> nat \<Rightarrow> nat option" where
  "function_after p 0 = Some (init_function p)"
| "function_after p (Suc k) =
     (case function_after p k of None \<Rightarrow> None | Some f \<Rightarrow> next_function p f)"

text \<open>The handlers that \<open>k\<close> consecutive interrupts execute, from the state in which
  \<^verbatim>\<open><prefix>_function\<close> is \<open>f\<close>.\<close>

fun executed :: "program \<Rightarrow> nat \<Rightarrow> nat \<Rightarrow> nat list option" where
  "executed p 0 f = Some []"
| "executed p (Suc k) f =
     (case next_function p f of
        None \<Rightarrow> None
      | Some g \<Rightarrow> (case executed p k g of None \<Rightarrow> None | Some hs \<Rightarrow> Some (f # hs)))"

subsection \<open>A schedule for the examples\<close>

text \<open>The state that the file with the single line \<^verbatim>\<open>scan 1 0.1\<close> leaves, and the program
  that is written for it.  The length of the task is the \<^verbatim>\<open>float\<close> nearest to 0.1.\<close>

definition scan_schedule :: sched where
  "scan_schedule =
     \<lparr>n_ticks = 8,
      ticks = replicate 8 \<lparr>slots = [\<lparr>slot_divider = 1, slot_task = 0\<rparr>],
                            tick_len = to_float (1 / 10)\<rparr>
              @ replicate 24 empty_tick,
      tasks = [\<lparr>task_name = ''scan'', task_period = 1, task_len = to_float (1 / 10),
                already_unrolled_count = 0, n_slots = 8\<rparr>],
      max_ticks = 8, max_divider = 1, conditionals = []\<rparr>"

definition scan_program :: program where
  "scan_program =
     \<lparr>handlers = map (\<lambda>n. \<lparr>body = [Call True ''scan'' None], divider_inc = False,
                            set_function = Some ((n + 1) mod 8)\<rparr>) [0..<8],
      init_function = 0, init_divider = 0\<rparr>"

text \<open>The state that the lines \<^verbatim>\<open>scan 1 0.1\<close> and \<^verbatim>\<open>rare 16 0.2\<close> leave.\<close>

definition scan_rare_schedule :: sched where
  "scan_rare_schedule =
     \<lparr>n_ticks = 8,
      ticks = replicate 7 \<lparr>slots = [\<lparr>slot_divider = 1, slot_task = 0\<rparr>],
                            tick_len = to_float (1 / 10)\<rparr>
              @ [\<lparr>slots = [\<lparr>slot_divider = 1, slot_task = 0\<rparr>, \<lparr>slot_divider = 2, slot_task = 1\<rparr>],
                  tick_len = to_float (1 / 10) + to_float (2 / 10) / 2\<rparr>]
              @ replicate 24 empty_tick,
      tasks = [\<lparr>task_name = ''scan'', task_period = 1, task_len = to_float (1 / 10),
                already_unrolled_count = 0, n_slots = 8\<rparr>,
               \<lparr>task_name = ''rare'', task_period = 16, task_len = to_float (2 / 10),
                already_unrolled_count = 0, n_slots = 1\<rparr>],
      max_ticks = 8, max_divider = 2, conditionals = []\<rparr>"

text \<open>The state after \<open>k\<close> lines \<^verbatim>\<open>aa 8 0\<close>: a task of length 0 costs nothing, so every
  such task is put into tick 0.\<close>

definition idle_task :: task where
  "idle_task = \<lparr>task_name = ''aa'', task_period = 8, task_len = 0,
                 already_unrolled_count = 0, n_slots = 1\<rparr>"

definition idle_schedule :: "nat \<Rightarrow> sched" where
  "idle_schedule k =
     \<lparr>n_ticks = 8,
      ticks = \<lparr>slots = map (\<lambda>t. \<lparr>slot_divider = 1, slot_task = t\<rparr>) [0..<k], tick_len = 0\<rparr>
              # replicate 31 empty_tick,
      tasks = replicate k idle_task,
      max_ticks = 8, max_divider = 1, conditionals = []\<rparr>"

text \<open>A file that fills the task table without filling a tick: two tasks \<^verbatim>\<open>cc 8 0.5\<close> go to
  ticks 0 and 1, which makes tick 2 the cheapest tick for the tasks \<^verbatim>\<open>aa 8 0\<close> that follow;
  the tasks \<^verbatim>\<open>bb 16 0\<close> carry a divider and go to tick 7.  \<open>mixed_schedule a b\<close> is the state
  after the two \<^verbatim>\<open>cc\<close>, \<open>a\<close> lines \<^verbatim>\<open>aa\<close> and \<open>b\<close> lines \<^verbatim>\<open>bb\<close>.\<close>

definition busy_task :: task where
  "busy_task = \<lparr>task_name = ''cc'', task_period = 8, task_len = 1 / 2,
                 already_unrolled_count = 0, n_slots = 1\<rparr>"

definition rare_task :: task where
  "rare_task = \<lparr>task_name = ''bb'', task_period = 16, task_len = 0,
                 already_unrolled_count = 0, n_slots = 1\<rparr>"

definition mixed_schedule :: "nat \<Rightarrow> nat \<Rightarrow> sched" where
  "mixed_schedule a b =
     \<lparr>n_ticks = 8,
      ticks = [\<lparr>slots = [\<lparr>slot_divider = 1, slot_task = 0\<rparr>], tick_len = 1 / 2\<rparr>,
               \<lparr>slots = [\<lparr>slot_divider = 1, slot_task = 1\<rparr>], tick_len = 1 / 2\<rparr>,
               \<lparr>slots = map (\<lambda>t. \<lparr>slot_divider = 1, slot_task = t\<rparr>) [2..<2 + a], tick_len = 0\<rparr>,
               empty_tick, empty_tick, empty_tick, empty_tick,
               \<lparr>slots = map (\<lambda>t. \<lparr>slot_divider = 2, slot_task = t\<rparr>) [2 + a..<2 + a + b],
                 tick_len = 0\<rparr>]
              @ replicate 24 empty_tick,
      tasks = [busy_task, busy_task] @ replicate a idle_task @ replicate b rare_task,
      max_ticks = 8, max_divider = (if b = 0 then 1 else 2), conditionals = []\<rparr>"

definition sixty_four_lines :: "string list" where
  "sixty_four_lines =
     [''cc 8 0.5\<newline>'', ''cc 8 0.5\<newline>''] @ replicate 31 ''aa 8 0\<newline>''
     @ replicate 31 ''bb 16 0\<newline>''"

text \<open>The entry that \<^verbatim>\<open>add_task\<close> writes for a further line \<^verbatim>\<open>bb 16 1\<close>, and the state
  \<open>mixed_schedule 31 31\<close> with that entry in the place of \<^verbatim>\<open>tasks[64]\<close>, behind the table (and
  whatever that write destroys left aside): what the rest of \<^verbatim>\<open>add_task\<close> works on.\<close>

definition late_task :: task where
  "late_task = \<lparr>task_name = ''bb'', task_period = 16, task_len = 1,
                 already_unrolled_count = 0, n_slots = 0\<rparr>"

definition overrun_schedule :: sched where
  "overrun_schedule =
     (mixed_schedule 31 31)\<lparr>tasks := tasks (mixed_schedule 31 31) @ [late_task]\<rparr>"

subsection \<open>Invariants\<close>

text \<open>What the parser maintains of the tick count and the maximal divider.\<close>

definition divider_inv :: "sched \<Rightarrow> bool" where
  "divider_inv s \<longleftrightarrow> (n_ticks s = 0 \<or> n_ticks s = 8) \<and> (\<exists>k\<le>7. max_divider s = 2 ^ k)"

subsection \<open>The placement of a task\<close>






section \<open>Properties\<close>

subsection \<open>The tick table after an expansion\<close>

lemma n_ticks_expand_ticks: "n_ticks (expand_ticks k s) = 8"
  by (simp add: expand_ticks_def Let_def)

text \<open>
  Claim C1.  After an insertion \<^verbatim>\<open>n_ticks\<close> should be a power of two that is at most
  \<^verbatim>\<open>max_ticks\<close>, the smallest one that holds the period that triggered the expansion; with
  \<^verbatim>\<open>max_ticks = 4\<close> and the single task \<^verbatim>\<open>scan 1 0.1\<close> it should end at 1.  The program,
  run on that input, ends with \<^verbatim>\<open>n_ticks = 8\<close>, above \<^verbatim>\<open>max_ticks = 4\<close>, and the task in
  eight slots.
\<close>

theorem scan_expands_to_8_ticks:
  "case parse_schedule strtod_dec [''scan 1 0.1\<newline>''] (init_schedule 4 []) of
     Inl e \<Rightarrow> False
   | Inr s \<Rightarrow> n_ticks s = 8 \<and> max_ticks s = 4 \<and> n_slots (tasks s ! 0) = 8"
  by code_simp

subsection \<open>A divided task on the empty tick table\<close>

text \<open>
  Claim C2.  The single line \<^verbatim>\<open>rare 16 0.2\<close> with \<^verbatim>\<open>max_ticks = 8\<close> should give
  \<^verbatim>\<open>n_ticks = 8\<close> and one slot with divider 2 in tick 7.  The program computes the divider
  \<^verbatim>\<open>period / n_ticks\<close> while \<^verbatim>\<open>n_ticks\<close> is still 0: it stops on a division by zero and
  places nothing.
\<close>

theorem rare_alone_divides_by_zero:
  "parse_schedule strtod_dec [''rare 16 0.2\<newline>''] (init_schedule 8 []) = Inl Div_by_zero"
  by code_simp

text \<open>The same line after a task that has expanded the table is placed as the claim says.\<close>

lemma rare_after_scan:
  "case parse_schedule strtod_dec [''scan 1 0.1\<newline>'', ''rare 16 0.2\<newline>'']
          (init_schedule 8 []) of
     Inl e \<Rightarrow> False
   | Inr s \<Rightarrow> n_ticks s = 8 \<and> max_divider s = 2 \<and> n_slots (tasks s ! 1) = 1 \<and>
       map (\<lambda>t. filter (\<lambda>sl. slot_task sl = 1) (slots t)) (take 8 (ticks s)) =
         [[], [], [], [], [], [], [], [\<lparr>slot_divider = 2, slot_task = 1\<rparr>]]"
  by code_simp

text \<open>The handler of tick 7 that is then written tests the divider around the call.\<close>

lemma rare_after_scan_emitted:
  "case write_tick_driver scan_rare_schedule of
     Inl e \<Rightarrow> False
   | Inr p \<Rightarrow>
       body (handlers p ! 7) =
         [Call True ''scan'' None, If_divider 1 [Call True ''rare'' None]] \<and>
       divider_inc (handlers p ! 7) \<and> set_function (handlers p ! 7) = Some 0"
  by code_simp

subsection \<open>Lines with a missing token\<close>

text \<open>
  Claim C6.  A live line with fewer than three tokens should end the program with a
  diagnostic.  The program passes the null pointer that \<^verbatim>\<open>strtok\<close> returns for the missing
  token to \<^verbatim>\<open>parse_time\<close>, which calls \<^verbatim>\<open>strlen\<close> on it: on the line \<^verbatim>\<open>orphan 4\<close> it stops
  on a null pointer dereference, which is no diagnostic.
\<close>

theorem missing_token_null_deref:
  "parse_schedule strtod_dec [''orphan 4\<newline>''] (init_schedule 8 []) = Inl Null_deref
   \<and> \<not> fatal_diagnostic Null_deref"
  by code_simp

text \<open>In general: a live line with one token stops there, and so does a live line with two
  tokens whose period is accepted.\<close>

lemma one_token_null_deref:
  assumes "strtok line = [nm]" and "hd nm \<noteq> CHR ''#''"
  shows "parse_line strtod line s = Inl Null_deref"
  using assms by (simp add: parse_line_def nth_token_def parse_time_def)

lemma two_tokens_null_deref:
  assumes "strtok line = [nm, ptok]" and "hd nm \<noteq> CHR ''#''"
    and "parse_time strtod (Some ptok) = Inr p" and "to_uint p = Inr P"
    and "\<not> not_power_of_2 P"
  shows "parse_line strtod line s = Inl Null_deref"
  using assms by (simp add: parse_line_def nth_token_def) (simp add: parse_time_def)

subsection \<open>The schedule of the examples\<close>

lemma scan_schedule_parsed:
  "parse_schedule strtod_dec [''scan 1 0.1\<newline>''] (init_schedule 8 []) = Inr scan_schedule"
  by code_simp

lemma scan_program_written: "write_tick_driver scan_schedule = Inr scan_program"
  by code_simp

subsection \<open>The emitted dispatcher\<close>

lemma emit_handlers_Inr:
  "emit_handlers s ns = Inr hs \<Longrightarrow>
   length hs = length ns \<and>
   (\<forall>i<length ns. set_function (hs ! i) =
      (if n_ticks s > 1 then Some ((ns ! i + 1) mod n_ticks s) else None))"
proof (induction ns arbitrary: hs)
  case Nil
  then show ?case by simp
next
  case (Cons n ns)
  from Cons.prems obtain h hs' where h: "emit_handler s n = Inr h"
    and hs': "emit_handlers s ns = Inr hs'" and hs: "hs = h # hs'"
    by (auto split: sum.splits)
  from h have sf: "set_function h = (if n_ticks s > 1 then Some ((n + 1) mod n_ticks s) else None)"
    by (auto simp: emit_handler_def split: sum.splits)
  from Cons.IH [OF hs'] have IH: "length hs' = length ns"
    "\<forall>i<length ns. set_function (hs' ! i) =
      (if n_ticks s > 1 then Some ((ns ! i + 1) mod n_ticks s) else None)" by auto
  show ?case
  proof (intro conjI allI impI)
    show "length hs = length (n # ns)" using IH hs by simp
  next
    fix i assume "i < length (n # ns)"
    then show "set_function (hs ! i) =
      (if n_ticks s > 1 then Some (((n # ns) ! i + 1) mod n_ticks s) else None)"
      using IH sf hs by (cases i) auto
  qed
qed

lemma write_tick_driver_Inr:
  assumes "write_tick_driver s = Inr p"
  shows "length (handlers p) = n_ticks s"
    and "init_function p = 0"
    and "i < n_ticks s \<Longrightarrow> set_function (handlers p ! i) =
           (if n_ticks s > 1 then Some ((i + 1) mod n_ticks s) else None)"
proof -
  from assms obtain hs where hs: "emit_handlers s [0..<n_ticks s] = Inr hs"
    and p: "p = \<lparr>handlers = hs, init_function = 0, init_divider = 0\<rparr>"
    by (auto simp: write_tick_driver_def split: sum.splits)
  from emit_handlers_Inr [OF hs] p show "length (handlers p) = n_ticks s" by simp
  from p show "init_function p = 0" by simp
  assume "i < n_ticks s"
  with emit_handlers_Inr [OF hs] p show "set_function (handlers p ! i) =
           (if n_ticks s > 1 then Some ((i + 1) mod n_ticks s) else None)" by simp
qed

lemma next_function_emitted:
  assumes "write_tick_driver s = Inr p" and "f < n_ticks s"
  shows "next_function p f = Some ((f + 1) mod n_ticks s)"
proof (cases "n_ticks s > 1")
  case True
  with write_tick_driver_Inr [OF assms(1)] assms(2) show ?thesis
    by (simp add: next_function_def)
next
  case False
  with assms(2) have "n_ticks s = 1" and "f = 0" by auto
  with write_tick_driver_Inr [OF assms(1)] show ?thesis
    by (simp add: next_function_def)
qed

lemma function_after_emitted:
  assumes "write_tick_driver s = Inr p" and "0 < n_ticks s"
  shows "function_after p k = Some (k mod n_ticks s)"
proof (induction k)
  case 0
  then show ?case using write_tick_driver_Inr(2) [OF assms(1)] by simp
next
  case (Suc k)
  have "k mod n_ticks s < n_ticks s" using assms(2) by simp
  from next_function_emitted [OF assms(1) this] Suc show ?case
    by (simp add: mod_Suc_eq)
qed

lemma executed_emitted:
  assumes "write_tick_driver s = Inr p" and "0 < n_ticks s" and "f < n_ticks s"
  shows "executed p k f = Some (map (\<lambda>j. (f + j) mod n_ticks s) [0..<k])"
  using assms(3)
proof (induction k arbitrary: f)
  case 0
  then show ?case by simp
next
  case (Suc k)
  have lt: "(f + 1) mod n_ticks s < n_ticks s" using assms(2) by simp
  have "map (\<lambda>j. (f + j) mod n_ticks s) [0..<Suc k] =
        f # map (\<lambda>j. ((f + 1) mod n_ticks s + j) mod n_ticks s) [0..<k]"
    using Suc.prems
    by (simp add: upt_conv_Cons map_Suc_upt [symmetric] mod_add_left_eq del: upt_Suc)
  then show ?case
    using next_function_emitted [OF assms(1) Suc.prems] Suc.IH [OF lt] by simp
qed

lemma rotation_set:
  assumes "f < (n::nat)"
  shows "set (map (\<lambda>j. (f + j) mod n) [0..<n]) = {0..<n}"
    and "distinct (map (\<lambda>j. (f + j) mod n) [0..<n])"
proof -
  have inj: "inj_on (\<lambda>j. (f + j) mod n) {0..<n}"
  proof (rule inj_onI)
    fix x y assume x: "x \<in> {0..<n}" and y: "y \<in> {0..<n}"
      and e: "(f + x) mod n = (f + y) mod n"
    have *: "a = b" if "a \<le> b" "b < n" "(f + a) mod n = (f + b) mod n" for a b
    proof -
      from that(1) have le: "f + a \<le> f + b" by simp
      have "n dvd b - a"
        using mod_eq_dvd_iff_nat [OF le, of n] that(3) by simp
      moreover have "b - a < n" using that by simp
      ultimately have "b - a = 0" by (meson dvd_imp_le not_less zero_less_iff_neq_zero)
      with that show ?thesis by simp
    qed
    show "x = y"
    proof (cases "x \<le> y")
      case True
      with * [of x y] y e show ?thesis by simp
    next
      case False
      with * [of y x] x e show ?thesis by simp
    qed
  qed
  then show "distinct (map (\<lambda>j. (f + j) mod n) [0..<n])"
    by (simp add: distinct_map)
  have "(\<lambda>j. (f + j) mod n) ` {0..<n} \<subseteq> {0..<n}" using assms by auto
  moreover have "card ((\<lambda>j. (f + j) mod n) ` {0..<n}) = card {0..<n}"
    using inj by (rule card_image)
  ultimately have "(\<lambda>j. (f + j) mod n) ` {0..<n} = {0..<n}"
    by (intro card_subset_eq) auto
  then show "set (map (\<lambda>j. (f + j) mod n) [0..<n]) = {0..<n}" by simp
qed

text \<open>
  Claim C9.  The dispatch of the emitted program is a rotation: \<^verbatim>\<open><prefix>_init\<close> sets the
  function pointer to handler 0; when there is more than one handler, handler \<open>i\<close> sets it
  to handler \<open>(i + 1) mod n_ticks\<close> (and a single handler leaves it alone); so from every
  state that is reached after \<^verbatim>\<open><prefix>_init\<close> and any number \<open>k\<close> of interrupts, the next
  \<open>n_ticks\<close> interrupts execute every handler exactly once.
\<close>

theorem dispatch_round_robin:
  assumes "write_tick_driver s = Inr p" and "0 < n_ticks s"
  shows "init_function p = 0 \<and>
    (\<forall>i<n_ticks s. set_function (handlers p ! i) =
        (if n_ticks s > 1 then Some ((i + 1) mod n_ticks s) else None)) \<and>
    (\<forall>k. \<exists>f hs. function_after p k = Some f \<and> executed p (n_ticks s) f = Some hs \<and>
        distinct hs \<and> set hs = {0..<n_ticks s})"
proof (intro conjI allI impI)
  show "init_function p = 0" by (rule write_tick_driver_Inr(2) [OF assms(1)])
next
  fix i assume "i < n_ticks s"
  then show "set_function (handlers p ! i) =
        (if n_ticks s > 1 then Some ((i + 1) mod n_ticks s) else None)"
    by (rule write_tick_driver_Inr(3) [OF assms(1)])
next
  fix k
  let ?n = "n_ticks s"
  have lt: "k mod ?n < ?n" using assms(2) by simp
  show "\<exists>f hs. function_after p k = Some f \<and> executed p ?n f = Some hs \<and>
        distinct hs \<and> set hs = {0..<?n}"
    using function_after_emitted [OF assms, of k] executed_emitted [OF assms lt, of ?n]
      rotation_set [OF lt] by auto
qed


theorem dispatch_round_robin_witness:
  "write_tick_driver scan_schedule = Inr scan_program \<and> 0 < n_ticks scan_schedule \<and>
   init_function scan_program = 0 \<and>
   set_function (handlers scan_program ! 6) = Some 7 \<and>
   set_function (handlers scan_program ! 7) = Some 0 \<and>
   (\<forall>k. \<exists>f hs. function_after scan_program k = Some f \<and>
        executed scan_program (n_ticks scan_schedule) f = Some hs \<and>
        distinct hs \<and> set hs = {0..<n_ticks scan_schedule})"
proof -
  have h1: "write_tick_driver scan_schedule = Inr scan_program" by code_simp
  have n: "n_ticks scan_schedule = 8" by (simp add: scan_schedule_def)
  then have h2: "0 < n_ticks scan_schedule" by simp
  note r = dispatch_round_robin [OF h1 h2]
  from r have i: "\<And>i. i < n_ticks scan_schedule \<Longrightarrow> set_function (handlers scan_program ! i) =
        (if n_ticks scan_schedule > 1 then Some ((i + 1) mod n_ticks scan_schedule) else None)"
    by blast
  have "set_function (handlers scan_program ! 6) = Some 7"
    and "set_function (handlers scan_program ! 7) = Some 0"
    using i [of 6] i [of 7] by (simp_all add: n)
  with r h1 h2 show ?thesis by blast
qed

subsection \<open>A period of 0\<close>

lemma add_task_period_0:
  assumes "strip_conditional (conditionals s) nm = Some nm1"
    and "strip_unrolled nm1 = Inr (nm2, u)"
    and "length (tasks s) < MAX_TASKS" and "length nm2 < MAX_ID"
  shows "add_task nm 0 len s = Inl Div_by_zero"
  using assms by (simp add: add_task_def slot_count_def Let_def)

text \<open>The test of the length against the period is made on the length as a \<^verbatim>\<open>float\<close>: a
  negative length that is too small for the format becomes a zero, which is not less than
  the period 0, and the line ends the program with the diagnostic for the length.\<close>

lemma period_zero_tiny_length:
  "to_float (- 1 / 10 ^ 50) = 0 \<and>
   parse_schedule strtod_dec [''zz 0 -1e-50\<newline>''] (init_schedule 8 []) =
     Inl Exit_length_ge_period"
  by code_simp

text \<open>
  Claim C10.  A line whose period token parses to the integer 0 is not rejected by the
  test \<^verbatim>\<open>period & (period - 1)\<close>; if its length passes the test against the period (the
  length, narrowed to \<^verbatim>\<open>float\<close>, is negative) and its name makes an entry of the task table,
  \<^verbatim>\<open>add_task\<close> computes the slot count \<^verbatim>\<open>n_ticks / period\<close> and the program stops on a division
  by zero.
\<close>

theorem period_zero_divides_by_zero:
  assumes "strtok line = nm # ptok # ltok # rest" and "hd nm \<noteq> CHR ''#''"
    and "parse_time strtod (Some ptok) = Inr p" and "to_uint p = Inr 0"
    and "parse_time strtod (Some ltok) = Inr l" and "to_float l < 0"
    and "strip_conditional (conditionals s) nm = Some nm1"
    and "strip_unrolled nm1 = Inr (nm2, u)"
    and "length (tasks s) < MAX_TASKS" and "length nm2 < MAX_ID"
  shows "\<not> not_power_of_2 0 \<and> parse_line strtod line s = Inl Div_by_zero"
proof
  show "\<not> not_power_of_2 0" by (simp add: not_power_of_2_def)
  then show "parse_line strtod line s = Inl Div_by_zero"
    using assms(1-6) add_task_period_0 [OF assms(7-10), of "to_float l"]
    by (simp add: parse_line_def nth_token_def Let_def)
qed

theorem period_zero_divides_by_zero_witness:
  "strtok ''zz 0 -1\<newline>'' = [''zz'', ''0'', ''-1''] \<and> hd ''zz'' \<noteq> CHR ''#'' \<and>
   parse_time strtod_dec (Some ''0'') = Inr 0 \<and> to_uint 0 = Inr 0 \<and>
   parse_time strtod_dec (Some ''-1'') = Inr (- 1) \<and> to_float (- 1) = - 1 \<and>
   to_float (- 1) < 0 \<and>
   strip_conditional (conditionals (init_schedule 8 [])) ''zz'' = Some ''zz'' \<and>
   strip_unrolled ''zz'' = Inr (''zz'', 0) \<and>
   length (tasks (init_schedule 8 [])) < MAX_TASKS \<and> length ''zz'' < MAX_ID \<and>
   parse_line strtod_dec ''zz 0 -1\<newline>'' (init_schedule 8 []) = Inl Div_by_zero"
proof -
  have 1: "strtok ''zz 0 -1\<newline>'' = ''zz'' # ''0'' # ''-1'' # []" by code_simp
  have 2: "hd ''zz'' \<noteq> CHR ''#''" by simp
  have 3: "parse_time strtod_dec (Some ''0'') = Inr 0" by code_simp
  have 4: "to_uint 0 = Inr 0" by (simp add: to_uint_def)
  have 5: "parse_time strtod_dec (Some ''-1'') = Inr (- 1)" by code_simp
  have f: "to_float (- 1) = - 1" by code_simp
  then have 6: "to_float (- 1) < 0" by simp
  have 7: "strip_conditional (conditionals (init_schedule 8 [])) ''zz'' = Some ''zz''" by code_simp
  have 8: "strip_unrolled ''zz'' = Inr (''zz'', 0)" by code_simp
  have 9: "length (tasks (init_schedule 8 [])) < MAX_TASKS"
    by (simp add: init_schedule_def MAX_TASKS_def)
  have 10: "length ''zz'' < MAX_ID" by (simp add: MAX_ID_def)
  from period_zero_divides_by_zero [OF 1 2 3 4 5 6 7 8 9 10] 1 2 3 4 5 6 7 8 9 10 f
  show ?thesis by simp
qed

subsection \<open>\<^verbatim>\<open>parse_time\<close>\<close>

text \<open>
  Claim C7 says that a token with a malformed numeric prefix makes \<^verbatim>\<open>parse_time\<close> report a
  parse error.  It does not: \<^verbatim>\<open>parse_time\<close> has no error path, and on the token \<^verbatim>\<open>x9\<close>, which
  has no numeric prefix, it returns the 0 that \<^verbatim>\<open>strtod\<close> returns.
\<close>

theorem malformed_time_is_zero:
  "numeric_prefix ''x9'' = None \<and> parse_time strtod_dec (Some ''x9'') = Inr 0"
  by code_simp

text \<open>
  Claim C7, amended.  \<^verbatim>\<open>parse_time\<close> reports no parse error: on every token (a token of
  \<^verbatim>\<open>strtok\<close> is not empty) it returns a value, which is the value of \<^verbatim>\<open>strtod\<close> divided by
  \<^verbatim>\<open>cycles_per_tick = 1952\<close> if the token ends in \<^verbatim>\<open>c\<close> or \<^verbatim>\<open>C\<close>, and the value of \<^verbatim>\<open>strtod\<close>
  otherwise; for a token with a malformed numeric prefix that value is 0.
\<close>

theorem parse_time_total:
  assumes "str \<noteq> []"
  shows "parse_time strtod (Some str) =
           Inr (if last str = CHR ''c'' \<or> last str = CHR ''C''
                then strtod str / 1952 else strtod str)
         \<and> (numeric_prefix str = None \<longrightarrow> parse_time strtod_dec (Some str) = Inr 0)"
  using assms
  by (simp add: parse_time_def cycles_per_interrupt_def CYCLES_PER_TICK_def strtod_dec_def)

theorem parse_time_total_witness:
  "''780c'' \<noteq> [] \<and> parse_time strtod_dec (Some ''780c'') = Inr (780 / 1952) \<and>
   ''0.25'' \<noteq> [] \<and> parse_time strtod_dec (Some ''0.25'') = Inr (1 / 4) \<and>
   ''oops'' \<noteq> [] \<and> numeric_prefix ''oops'' = None \<and>
   parse_time strtod_dec (Some ''oops'') = Inr 0"
proof -
  have v: "strtod_dec ''780c'' = 780" "strtod_dec ''0.25'' = 1 / 4"
    "numeric_prefix ''oops'' = None"
    by code_simp+
  from parse_time_total [of "''780c''" strtod_dec] v(1)
  have a: "parse_time strtod_dec (Some ''780c'') = Inr (780 / 1952)" by simp
  from parse_time_total [of "''0.25''" strtod_dec] v(2)
  have b: "parse_time strtod_dec (Some ''0.25'') = Inr (1 / 4)" by simp
  have ne: "''oops'' \<noteq> []" by simp
  from parse_time_total [OF ne, of strtod_dec] v(3)
  have c: "parse_time strtod_dec (Some ''oops'') = Inr 0" by blast
  from a b c v(3) show ?thesis by simp
qed

subsection \<open>\<^verbatim>\<open>find_best_tick\<close>\<close>

text \<open>
  Claim C4.  \<^verbatim>\<open>find_best_tick\<close> should return the candidate of least total cost.  After
  the five lines below, ticks 0 to 3 hold 0.9, tick 4 holds 0.2 (the \<^verbatim>\<open>float\<close> values nearest
  to them) and the others nothing.
  For a task of period 4 and length 0.5 (two slots) candidate 0 costs 99999.2 and
  candidates 1, 2 and 3 cost 99999; the function returns 0, because it starts from
  \<^verbatim>\<open>best = 0\<close>, \<^verbatim>\<open>best_len = 99999.0\<close> and takes a candidate only if it costs less than that.
\<close>

theorem find_best_tick_not_least:
  "case parse_schedule strtod_dec
          [''aa 8 0.9\<newline>'', ''bb 8 0.9\<newline>'', ''cc 8 0.9\<newline>'', ''dd 8 0.9\<newline>'',
           ''ff 8 0.2\<newline>''] (init_schedule 8 []) of
     Inl e \<Rightarrow> False
   | Inr s \<Rightarrow>
       map tick_len (take 8 (ticks s)) =
         [to_float (9 / 10), to_float (9 / 10), to_float (9 / 10), to_float (9 / 10),
          to_float (2 / 10), 0, 0, 0] \<and>
       total_len s 4 2 (1 / 2) 0 = 99999 + to_float (2 / 10) \<and>
       total_len s 4 2 (1 / 2) 1 = 99999 \<and>
       find_best_tick 4 2 (1 / 2) s = Inr 0"
  by code_simp

lemma best_fold_inv:
  fixes cost :: "nat \<Rightarrow> real"
  defines "step \<equiv> \<lambda>i (b::nat \<times> real). if cost i < snd b then (i, cost i) else b"
  shows "let r = fold step [0..<k] (0, 99999) in
      (\<forall>i<k. 99999 \<le> cost i) \<and> r = (0, 99999) \<or>
      fst r < k \<and> snd r = cost (fst r) \<and> snd r < 99999 \<and>
        (\<forall>i<k. snd r \<le> cost i) \<and> (\<forall>i<fst r. snd r < cost i)"
proof (induction k)
  case 0
  then show ?case by simp
next
  case (Suc k)
  define r where "r = fold step [0..<k] (0, 99999)"
  have f: "fold step [0..<Suc k] (0, 99999) = step k r"
    by (simp add: r_def)
  from Suc have IH: "(\<forall>i<k. 99999 \<le> cost i) \<and> r = (0, 99999) \<or>
      fst r < k \<and> snd r = cost (fst r) \<and> snd r < 99999 \<and>
        (\<forall>i<k. snd r \<le> cost i) \<and> (\<forall>i<fst r. snd r < cost i)"
    by (simp add: Let_def r_def)
  show ?case
    unfolding Let_def f
  proof (cases "cost k < snd r")
    case True
    then have s: "step k r = (k, cost k)" by (simp add: step_def)
    from IH True have "cost k < 99999" by auto
    moreover from IH True have "\<forall>i<k. cost k < cost i" by auto
    ultimately show "(\<forall>i<Suc k. 99999 \<le> cost i) \<and> step k r = (0, 99999) \<or>
      fst (step k r) < Suc k \<and> snd (step k r) = cost (fst (step k r)) \<and>
      snd (step k r) < 99999 \<and> (\<forall>i<Suc k. snd (step k r) \<le> cost i) \<and>
      (\<forall>i<fst (step k r). snd (step k r) < cost i)"
      unfolding s by (auto simp: less_Suc_eq)
  next
    case False
    then have s: "step k r = r" by (simp add: step_def)
    from IH False show "(\<forall>i<Suc k. 99999 \<le> cost i) \<and> step k r = (0, 99999) \<or>
      fst (step k r) < Suc k \<and> snd (step k r) = cost (fst (step k r)) \<and>
      snd (step k r) < 99999 \<and> (\<forall>i<Suc k. snd (step k r) \<le> cost i) \<and>
      (\<forall>i<fst (step k r). snd (step k r) < cost i)"
      unfolding s by (auto simp: less_Suc_eq)
  qed
qed

text \<open>What \<^verbatim>\<open>find_best_tick\<close> returns in general: if no candidate costs less than 99999, the
  index 0; otherwise the candidate of least total cost, and among several of them the one
  with the smallest index.\<close>

lemma find_best_tick_least_below_sentinel:
  assumes "find_best_tick P count len s = Inr b"
  shows "(\<forall>i<n_ticks s div count. 99999 \<le> total_len s P count len i) \<and> b = 0 \<or>
     b < n_ticks s div count \<and> total_len s P count len b < 99999 \<and>
     (\<forall>i<n_ticks s div count. total_len s P count len b \<le> total_len s P count len i) \<and>
     (\<forall>i<b. total_len s P count len b < total_len s P count len i)"
proof -
  have e: "best_step s P count len =
     (\<lambda>i b. if total_len s P count len i < snd b then (i, total_len s P count len i) else b)"
    by (intro ext) (simp add: best_step_def Let_def)
  from assms have b: "b = fst (fold (best_step s P count len) [0..<n_ticks s div count] (0, 99999))"
    by (auto simp: find_best_tick_def split: if_splits)
  from best_fold_inv [of "total_len s P count len" "n_ticks s div count"]
  show ?thesis unfolding b e Let_def by auto
qed

subsection \<open>Periods that pass the power-of-two test\<close>

lemma and_pred_nat:
  "0 < p \<Longrightarrow> p AND (p - 1) = (0::nat) \<Longrightarrow> \<exists>k. p = 2 ^ k"
proof (induction p rule: less_induct)
  case (less p)
  show ?case
  proof (cases "even p")
    case True
    then obtain q where q: "p = 2 * q" by (auto elim: evenE)
    with less.prems have q0: "0 < q" by simp
    have "(p - 1) div 2 = q - 1" using q q0 by (cases q) auto
    moreover have "p div 2 = q" using q by simp
    ultimately have "p AND (p - 1) = 2 * (q AND (q - 1))"
      using True by (subst and_rec) simp
    with less.prems have "q AND (q - 1) = 0" by simp
    moreover have "q < p" using q q0 by simp
    ultimately obtain k where "q = 2 ^ k" using less.IH q0 by blast
    then have "p = 2 ^ Suc k" using q by simp
    then show ?thesis by blast
  next
    case False
    then obtain q where q: "p = 2 * q + 1" by (auto elim: oddE)
    have "p AND (p - 1) = 2 * (q AND q)"
      using q by (subst and_rec) simp
    with less.prems have "q = 0" by simp
    with q have "p = 2 ^ 0" by simp
    then show ?thesis by blast
  qed
qed

lemma not_power_of_2_False:
  assumes "\<not> not_power_of_2 p" and "p < 2 ^ 32"
  shows "p = 0 \<or> (\<exists>k. p = 2 ^ k)"
proof (cases "p = 0")
  case True
  then show ?thesis by simp
next
  case False
  then have eq: "(int p - 1) mod 2 ^ 32 = int (p - 1)"
    using assms(2) by (simp add: of_nat_diff)
  from assms(1) have "int (p AND (p - 1)) = 0"
    unfolding not_power_of_2_def eq by (simp add: of_nat_and_eq)
  then have "p AND (p - 1) = 0" by simp
  with False and_pred_nat [of p] show ?thesis by simp
qed

lemma to_uint_Inr: "to_uint x = Inr p \<Longrightarrow> p < 2 ^ 32"
proof -
  assume a: "to_uint x = Inr p"
  then have x: "x < 4294967296" and p: "p = nat \<lfloor>x\<rfloor>"
    by (auto simp: to_uint_def split: if_splits)
  from x have "\<lfloor>x\<rfloor> < 4294967296" using floor_less_iff [of x 4294967296] by simp
  then have "nat \<lfloor>x\<rfloor> < 4294967296" by linarith
  with p show ?thesis by simp
qed

lemma power_of_2_div_8:
  assumes "(8::nat) < 2 ^ k" and "2 ^ k div 8 < (256::nat)"
  shows "\<exists>j\<le>7. (2::nat) ^ k div 8 = 2 ^ j"
proof -
  have k: "3 < k"
  proof (rule ccontr)
    assume "\<not> 3 < k"
    then have "k \<le> 3" by simp
    then have "(2::nat) ^ k \<le> 2 ^ 3" by (rule power_increasing) simp
    with assms(1) show False by simp
  qed
  then have d: "(2::nat) ^ k div 8 = 2 ^ (k - 3)"
    using power_diff [of "2::nat" 3 k] by simp
  have "k - 3 < 8"
  proof (rule ccontr)
    assume "\<not> k - 3 < 8"
    then have "8 \<le> k - 3" by simp
    then have "(2::nat) ^ 8 \<le> 2 ^ (k - 3)" by (rule power_increasing) simp
    with assms(2) d show False by simp
  qed
  with d show ?thesis by (intro exI [of _ "k - 3"]) simp
qed

subsection \<open>The effect of an insertion on the state\<close>

lemma alloc_slot_Inr:
  "alloc_slot i sl s = Inr s' \<Longrightarrow>
   s' = s\<lparr>ticks := (ticks s)[i := (ticks s ! i)\<lparr>slots := slots (ticks s ! i) @ [sl]\<rparr>]\<rparr>"
  by (simp add: alloc_slot_def Let_def split: if_splits)

lemma place_slots_frame:
  "place_slots count base d t P s = Inr s' \<Longrightarrow>
   n_ticks s' = n_ticks s \<and> max_divider s' = max_divider s \<and> max_ticks s' = max_ticks s \<and>
   conditionals s' = conditionals s \<and> length (tasks s') = length (tasks s) \<and>
   length (ticks s') = length (ticks s)"
proof (induction count arbitrary: base s)
  case 0
  then show ?case by simp
next
  case (Suc count)
  from Suc.prems obtain s1 where a: "alloc_slot base \<lparr>slot_divider = d, slot_task = t\<rparr> s = Inr s1"
    by (auto split: sum.splits)
  note s1 = alloc_slot_Inr [OF a]
  from Suc.prems a obtain s3 base' where
    s3: "s3 = s1\<lparr>tasks := (tasks s1)[t := (tasks s1 ! t)\<lparr>n_slots := n_slots (tasks s1 ! t) + 1\<rparr>],
                 ticks := (ticks s1)[base := (ticks s1 ! base)\<lparr>tick_len :=
                    tick_len (ticks s1 ! base) + task_len (tasks s1 ! t) / real d\<rparr>]\<rparr>"
    and r: "place_slots count base' d t P s3 = Inr s'"
    by (auto simp: Let_def split: if_splits)
  from Suc.IH [OF r] s3 s1 show ?case by simp
qed

lemma slot_count_Inr:
  assumes "slot_count P s = Inr (count, d, s2)"
  shows "tasks s2 = tasks s \<and> max_ticks s2 = max_ticks s \<and> conditionals s2 = conditionals s \<and>
    (n_ticks s < P \<and> P \<le> max_ticks s \<and> s2 = expand_ticks P s \<and> count = 8 div P \<and> d = 1
     \<or> n_ticks s < P \<and> max_ticks s < P \<and> n_ticks s \<noteq> 0 \<and> n_ticks s2 = n_ticks s \<and>
       ticks s2 = ticks s \<and> count = 1 \<and> d = P div n_ticks s \<and>
       (d < 256 \<or> d \<le> max_divider s) \<and>
       max_divider s2 = max (max_divider s) d
     \<or> P \<le> n_ticks s \<and> P \<noteq> 0 \<and> s2 = s \<and> count = n_ticks s div P \<and> d = 1)"
  using assms
  by (auto simp: slot_count_def Let_def expand_ticks_def split: if_splits)

lemma add_task_Inr:
  assumes "add_task nm P len s = Inr s'"
  shows "s' = s \<or>
    (\<exists>nm2 u count d s2 base.
       length (tasks s) < MAX_TASKS \<and>
       slot_count P (s\<lparr>tasks := tasks s @ [\<lparr>task_name = nm2, task_period = P, task_len = len,
                        already_unrolled_count = u, n_slots = 0\<rparr>]\<rparr>) = Inr (count, d, s2) \<and>
       find_best_tick P count len s2 = Inr base \<and>
       place_slots count base d (length (tasks s)) P s2 = Inr s')"
  using assms
  by (auto simp: add_task_def Let_def split: option.splits sum.splits if_splits prod.splits)

subsection \<open>The maximal divider\<close>

lemma add_task_divider_inv:
  assumes "divider_inv s" and "P = 0 \<or> (\<exists>k. P = 2 ^ k)" and "add_task nm P len s = Inr s'"
  shows "divider_inv s'"
proof -
  from add_task_Inr [OF assms(3)] show ?thesis
  proof
    assume "s' = s" with assms(1) show ?thesis by simp
  next
    assume "\<exists>nm2 u count d s2 base.
       length (tasks s) < MAX_TASKS \<and>
       slot_count P (s\<lparr>tasks := tasks s @ [\<lparr>task_name = nm2, task_period = P, task_len = len,
                        already_unrolled_count = u, n_slots = 0\<rparr>]\<rparr>) = Inr (count, d, s2) \<and>
       find_best_tick P count len s2 = Inr base \<and>
       place_slots count base d (length (tasks s)) P s2 = Inr s'"
    then obtain nm2 u count d s2 base where
      sc: "slot_count P (s\<lparr>tasks := tasks s @ [\<lparr>task_name = nm2, task_period = P, task_len = len,
                        already_unrolled_count = u, n_slots = 0\<rparr>]\<rparr>) = Inr (count, d, s2)"
      and pl: "place_slots count base d (length (tasks s)) P s2 = Inr s'" by blast
    let ?s1 = "s\<lparr>tasks := tasks s @ [\<lparr>task_name = nm2, task_period = P, task_len = len,
                        already_unrolled_count = u, n_slots = 0\<rparr>]\<rparr>"
    from place_slots_frame [OF pl] have f: "n_ticks s' = n_ticks s2" "max_divider s' = max_divider s2"
      by simp_all
    from assms(1) obtain k0 where k0: "k0 \<le> 7" "max_divider s = 2 ^ k0"
      and nt: "n_ticks s = 0 \<or> n_ticks s = 8" by (auto simp: divider_inv_def)
    from slot_count_Inr [OF sc]
    consider (expand) "s2 = expand_ticks P ?s1"
      | (divide) "n_ticks ?s1 < P" "n_ticks ?s1 \<noteq> 0" "n_ticks s2 = n_ticks ?s1"
          "d = P div n_ticks ?s1" "d < 256 \<or> d \<le> max_divider ?s1"
          "max_divider s2 = max (max_divider ?s1) d"
      | (same) "s2 = ?s1" by blast
    then show ?thesis
    proof cases
      case expand
      then have "n_ticks s2 = 8" "max_divider s2 = max_divider s"
        by (simp_all add: expand_ticks_def Let_def)
      with f k0 show ?thesis by (auto simp: divider_inv_def)
    next
      case divide
      with nt have n8: "n_ticks s = 8" by simp
      from divide n8 assms(2) obtain k where k: "P = 2 ^ k" by auto
      have "(2::nat) ^ k0 \<le> 2 ^ 7" using k0(1) by (rule power_increasing) simp
      with k0(2) divide(5) have "d < 256" by auto
      with divide n8 k have "(8::nat) < 2 ^ k" "2 ^ k div 8 < (256::nat)" by simp_all
      from power_of_2_div_8 [OF this] obtain j where j: "j \<le> 7" "(2::nat) ^ k div 8 = 2 ^ j"
        by blast
      with divide n8 k have dj: "d = 2 ^ j" by simp
      have "max_divider s2 = 2 ^ max k0 j"
        using divide(6) dj k0(2) by (simp add: max_def)
      moreover have "max k0 j \<le> 7" using k0(1) j(1) by simp
      ultimately show ?thesis using f n8 divide(3) by (auto simp: divider_inv_def)
    next
      case same
      with f assms(1) show ?thesis by (simp add: divider_inv_def)
    qed
  qed
qed

lemma parse_line_Inr:
  assumes "parse_line strtod line s = Inr s'"
  shows "s' = s \<or> (\<exists>nm P len. (P = 0 \<or> (\<exists>k. P = 2 ^ k)) \<and> len < real P \<and>
           add_task nm P len s = Inr s')"
proof (cases "nth_token (strtok line) 0")
  case None
  with assms show ?thesis by (simp add: parse_line_def)
next
  case (Some nm)
  show ?thesis
  proof (cases "hd nm = CHR ''#''")
    case True
    with Some assms show ?thesis by (simp add: parse_line_def)
  next
    case False
    with Some assms obtain p P len where p: "to_uint p = Inr P" and np: "\<not> not_power_of_2 P"
      and l: "\<not> len \<ge> real P" and a: "add_task nm P len s = Inr s'"
      by (auto simp: parse_line_def Let_def split: sum.splits if_splits)
    from l have "len < real P" by simp
    with not_power_of_2_False [OF np to_uint_Inr [OF p]] a show ?thesis by blast
  qed
qed

lemma parse_schedule_divider_inv:
  "parse_schedule strtod lines s = Inr s' \<Longrightarrow> divider_inv s \<Longrightarrow> divider_inv s'"
proof (induction lines arbitrary: s)
  case Nil
  then show ?case by simp
next
  case (Cons line lines)
  from Cons.prems(1) obtain s1 where 1: "parse_line strtod line s = Inr s1"
    and 2: "parse_schedule strtod lines s1 = Inr s'" by (auto split: sum.splits)
  from parse_line_Inr [OF 1] Cons.prems(2) have "divider_inv s1"
    by (auto intro: add_task_divider_inv)
  with Cons.IH [OF 2] show ?case .
qed

lemma divider_inv_init: "divider_inv (init_schedule M conds)"
  by (auto simp: divider_inv_def init_schedule_def intro: exI [of _ 0])

text \<open>
  Claim C5.  In every state that the parser reaches, the maximal divider is a power of two
  that is at most 128; and an insertion whose period exceeds \<^verbatim>\<open>n_ticks\<close> and \<^verbatim>\<open>max_ticks\<close> and
  whose divider \<^verbatim>\<open>period / n_ticks\<close> is 256 or more ends the program with the diagnostic
  \<^verbatim>\<open>period too large\<close>.  (The insertion is one that reaches the computation of the
  divider: its name is not skipped for an undefined conditional and fits the tables.)
\<close>

theorem divider_limit:
  assumes "parse_schedule strtod lines (init_schedule M conds) = Inr s"
  shows "(\<exists>k\<le>7. max_divider s = 2 ^ k) \<and>
    (\<forall>nm nm1 nm2 u P len.
       strip_conditional (conditionals s) nm = Some nm1 \<and> strip_unrolled nm1 = Inr (nm2, u) \<and>
       length (tasks s) < MAX_TASKS \<and> length nm2 < MAX_ID \<and>
       n_ticks s < P \<and> max_ticks s < P \<and> 256 \<le> P div n_ticks s \<longrightarrow>
       add_task nm P len s = Inl Exit_period_too_large \<and>
       fatal_diagnostic Exit_period_too_large)"
proof -
  from parse_schedule_divider_inv [OF assms divider_inv_init] have i: "divider_inv s" .
  then obtain k where k: "k \<le> 7" "max_divider s = 2 ^ k" by (auto simp: divider_inv_def)
  have "(2::nat) ^ k \<le> 2 ^ 7" using k(1) by (rule power_increasing) simp
  with k have md: "max_divider s < 256" by simp
  show ?thesis
  proof (intro conjI allI impI)
    show "\<exists>k\<le>7. max_divider s = 2 ^ k" using k by blast
  next
    fix nm nm1 nm2 u P len
    assume h: "strip_conditional (conditionals s) nm = Some nm1 \<and> strip_unrolled nm1 = Inr (nm2, u) \<and>
       length (tasks s) < MAX_TASKS \<and> length nm2 < MAX_ID \<and>
       n_ticks s < P \<and> max_ticks s < P \<and> 256 \<le> P div n_ticks s"
    then have "n_ticks s \<noteq> 0" by (auto intro: ccontr)
    with h md show "add_task nm P len s = Inl Exit_period_too_large"
      by (simp add: add_task_def slot_count_def Let_def)
  next
    show "fatal_diagnostic Exit_period_too_large" by simp
  qed
qed

theorem divider_limit_witness:
  "parse_schedule strtod_dec [''scan 1 0.1\<newline>''] (init_schedule 8 []) = Inr scan_schedule \<and>
   max_divider scan_schedule = 2 ^ 0 \<and>
   strip_conditional (conditionals scan_schedule) ''rare'' = Some ''rare'' \<and>
   strip_unrolled ''rare'' = Inr (''rare'', 0) \<and>
   length (tasks scan_schedule) < MAX_TASKS \<and> length ''rare'' < MAX_ID \<and>
   n_ticks scan_schedule < 2048 \<and> max_ticks scan_schedule < 2048 \<and>
   256 \<le> 2048 div n_ticks scan_schedule \<and>
   add_task ''rare'' 2048 (1 / 5) scan_schedule = Inl Exit_period_too_large"
proof -
  have p: "parse_schedule strtod_dec [''scan 1 0.1\<newline>''] (init_schedule 8 []) = Inr scan_schedule"
    by code_simp
  have h: "strip_conditional (conditionals scan_schedule) ''rare'' = Some ''rare'' \<and>
       strip_unrolled ''rare'' = Inr (''rare'', 0) \<and>
       length (tasks scan_schedule) < MAX_TASKS \<and> length ''rare'' < MAX_ID \<and>
       n_ticks scan_schedule < 2048 \<and> max_ticks scan_schedule < 2048 \<and>
       256 \<le> 2048 div n_ticks scan_schedule"
    by (simp add: scan_schedule_def strip_conditional_def strip_unrolled_def MAX_TASKS_def
        MAX_ID_def)
  have m: "max_divider scan_schedule = 2 ^ 0" by (simp add: scan_schedule_def)
  from divider_limit [OF p] h
  have "add_task ''rare'' 2048 (1 / 5) scan_schedule = Inl Exit_period_too_large" by blast
  with p h m show ?thesis by blast
qed

subsection \<open>The capacity of a tick and of the task table\<close>

lemma parse_idle_line: "parse_line strtod_dec ''aa 8 0\<newline>'' s = add_task ''aa'' 8 0 s"
proof -
  have 1: "strtok ''aa 8 0\<newline>'' = [''aa'', ''8'', ''0'']" by code_simp
  have 2: "parse_time strtod_dec (Some ''8'') = Inr 8" by code_simp
  have 3: "parse_time strtod_dec (Some ''0'') = Inr 0" by code_simp
  have 4: "to_uint 8 = Inr 8" by (simp add: to_uint_def)
  have 5: "\<not> not_power_of_2 8" by (simp add: not_power_of_2_def)
  have 6: "to_float 0 = 0" by (simp add: to_float_def)
  show ?thesis by (simp add: parse_line_def nth_token_def Let_def 1 2 3 4 5 6)
qed

lemma first_idle: "add_task ''aa'' 8 0 (init_schedule 8 []) = Inr (idle_schedule 1)"
  by code_simp

lemma upt_8: "[0..<8] = [0, 1, 2, 3, 4, 5, 6, 7]"
  by code_simp

lemma find_best_tick_idle: "find_best_tick 8 (Suc 0) 0 (idle_schedule k) = Inr 0"
  by (simp add: find_best_tick_def best_step_def total_len_def candidate_len_def
      idle_schedule_def empty_tick_def upt_8 Let_def)

lemma add_idle:
  assumes "k < 31"
  shows "add_task ''aa'' 8 0 (idle_schedule k) = Inr (idle_schedule (Suc k))"
proof -
  have t: "replicate k idle_task @ [idle_task] = replicate (Suc k) idle_task"
    by (simp add: replicate_append_same)
  have sc: "slot_count 8 (idle_schedule k\<lparr>tasks := tasks (idle_schedule k) @
        [\<lparr>task_name = ''aa'', task_period = 8, task_len = 0, already_unrolled_count = 0,
          n_slots = 0\<rparr>]\<rparr>) = Inr (Suc 0, 1, idle_schedule k\<lparr>tasks := tasks (idle_schedule k) @
        [\<lparr>task_name = ''aa'', task_period = 8, task_len = 0, already_unrolled_count = 0,
          n_slots = 0\<rparr>]\<rparr>)"
    by (simp add: slot_count_def idle_schedule_def)
  show ?thesis
    apply (simp add: add_task_def strip_conditional_def strip_unrolled_def Let_def sc
        MAX_TASKS_def MAX_ID_def)
    apply (simp add: idle_schedule_def find_best_tick_def best_step_def total_len_def candidate_len_def upt_8 empty_tick_def Let_def)
    using assms
    apply (simp add: alloc_slot_def Let_def MAX_SLOTS_PER_TICK_def nth_append idle_task_def
         replicate_append_same list_update_append)
    done
qed


lemma add_idle_full:
  "add_task ''aa'' 8 0 (idle_schedule 31) = Inl Exit_too_many_slots"
proof -
  have sc: "slot_count 8 (idle_schedule 31\<lparr>tasks := tasks (idle_schedule 31) @
        [\<lparr>task_name = ''aa'', task_period = 8, task_len = 0, already_unrolled_count = 0,
          n_slots = 0\<rparr>]\<rparr>) = Inr (Suc 0, 1, idle_schedule 31\<lparr>tasks := tasks (idle_schedule 31) @
        [\<lparr>task_name = ''aa'', task_period = 8, task_len = 0, already_unrolled_count = 0,
          n_slots = 0\<rparr>]\<rparr>)"
    by (simp add: slot_count_def idle_schedule_def)
  show ?thesis
    apply (simp add: add_task_def strip_conditional_def strip_unrolled_def Let_def sc
        MAX_TASKS_def MAX_ID_def)
    apply (simp add: idle_schedule_def find_best_tick_def best_step_def total_len_def candidate_len_def upt_8 empty_tick_def Let_def)
    apply (simp add: alloc_slot_def Let_def MAX_SLOTS_PER_TICK_def)
    done
qed

lemma parse_schedule_append:
  "parse_schedule strtod (xs @ ys) s =
     (case parse_schedule strtod xs s of Inl e \<Rightarrow> Inl e | Inr s' \<Rightarrow> parse_schedule strtod ys s')"
  by (induction xs arbitrary: s) (auto split: sum.splits)

lemma parse_idle_lines:
  "k + n \<le> 31 \<Longrightarrow>
   parse_schedule strtod_dec (replicate n ''aa 8 0\<newline>'') (idle_schedule k) =
     Inr (idle_schedule (k + n))"
proof (induction n arbitrary: k)
  case 0
  then show ?case by simp
next
  case (Suc n)
  from Suc.prems have "k < 31" "Suc k + n \<le> 31" by simp_all
  with Suc.IH [of "Suc k"] show ?case
    by (simp add: parse_idle_line add_idle)
qed

lemma task_table_overrun:
  assumes "strip_conditional (conditionals s) nm = Some nm1"
    and "strip_unrolled nm1 = Inr (nm2, u)" and "MAX_TASKS \<le> length (tasks s)"
  shows "add_task nm P len s = Inl Task_table_overrun"
  using assms by (simp add: add_task_def)

lemma parse_rare_line: "parse_line strtod_dec ''bb 16 0\<newline>'' s = add_task ''bb'' 16 0 s"
proof -
  have 1: "strtok ''bb 16 0\<newline>'' = [''bb'', ''16'', ''0'']" by code_simp
  have 2: "parse_time strtod_dec (Some ''16'') = Inr 16" by code_simp
  have 3: "parse_time strtod_dec (Some ''0'') = Inr 0" by code_simp
  have 4: "to_uint 16 = Inr 16" by (simp add: to_uint_def)
  have 5: "\<not> not_power_of_2 16" by (simp add: not_power_of_2_def)
  have 6: "to_float 0 = 0" by (simp add: to_float_def)
  show ?thesis by (simp add: parse_line_def nth_token_def Let_def 1 2 3 4 5 6)
qed

lemma parse_late_line: "parse_line strtod_dec ''bb 16 1\<newline>'' s = add_task ''bb'' 16 1 s"
proof -
  have 1: "strtok ''bb 16 1\<newline>'' = [''bb'', ''16'', ''1'']" by code_simp
  have 2: "parse_time strtod_dec (Some ''16'') = Inr 16" by code_simp
  have 3: "parse_time strtod_dec (Some ''1'') = Inr 1" by code_simp
  have 4: "to_uint 16 = Inr 16" by (simp add: to_uint_def)
  have 5: "\<not> not_power_of_2 16" by (simp add: not_power_of_2_def)
  have 6: "to_float 1 = 1" by code_simp
  show ?thesis by (simp add: parse_line_def nth_token_def Let_def 1 2 3 4 5 6)
qed

lemma two_busy:
  "parse_schedule strtod_dec [''cc 8 0.5\<newline>'', ''cc 8 0.5\<newline>''] (init_schedule 8 []) =
     Inr (mixed_schedule 0 0)"
  by code_simp

lemma add_idle_mixed:
  assumes "a < 31"
  shows "add_task ''aa'' 8 0 (mixed_schedule a 0) = Inr (mixed_schedule (Suc a) 0)"
proof -
  let ?T0 = "\<lparr>task_name = ''aa'', task_period = 8, task_len = 0, already_unrolled_count = 0,
          n_slots = 0\<rparr>"
  let ?s1 = "mixed_schedule a 0\<lparr>tasks := tasks (mixed_schedule a 0) @ [?T0]\<rparr>"
  have sc: "slot_count 8 ?s1 = Inr (Suc 0, 1, ?s1)"
    by (simp add: slot_count_def mixed_schedule_def)
  have fb: "find_best_tick 8 (Suc 0) 0 ?s1 = Inr 2"
    by (simp add: mixed_schedule_def find_best_tick_def best_step_def total_len_def
        candidate_len_def upt_8 empty_tick_def Let_def)
  show ?thesis
    apply (simp add: add_task_def strip_conditional_def strip_unrolled_def Let_def sc fb
        MAX_TASKS_def MAX_ID_def)
    using assms
    apply (simp add: mixed_schedule_def alloc_slot_def Let_def MAX_SLOTS_PER_TICK_def nth_append
        idle_task_def replicate_append_same list_update_append)
    apply arith
    done
qed

lemma add_rare_mixed:
  assumes "b < 31"
  shows "add_task ''bb'' 16 0 (mixed_schedule 31 b) = Inr (mixed_schedule 31 (Suc b))"
proof -
  let ?T0 = "\<lparr>task_name = ''bb'', task_period = 16, task_len = 0, already_unrolled_count = 0,
          n_slots = 0\<rparr>"
  let ?s1 = "mixed_schedule 31 b\<lparr>tasks := tasks (mixed_schedule 31 b) @ [?T0]\<rparr>"
  have sc: "slot_count 16 ?s1 = Inr (Suc 0, 2, ?s1\<lparr>max_divider := 2\<rparr>)"
    by (simp add: slot_count_def mixed_schedule_def)
  have fb: "find_best_tick 16 (Suc 0) 0 (?s1\<lparr>max_divider := 2\<rparr>) = Inr 7"
    by (simp add: mixed_schedule_def find_best_tick_def best_step_def total_len_def
        candidate_len_def upt_8 empty_tick_def Let_def)
  have "34 + b = Suc (33 + b)" by simp
  then have u: "[33..<34 + b] = [33..<33 + b] @ [33 + b]" by (simp only: upt_Suc) simp
  show ?thesis
    apply (simp add: add_task_def strip_conditional_def strip_unrolled_def Let_def sc fb
        MAX_TASKS_def MAX_ID_def)
    using assms
    apply (simp add: mixed_schedule_def alloc_slot_def Let_def MAX_SLOTS_PER_TICK_def nth_append
        rare_task_def replicate_append_same list_update_append u)
    done
qed

lemma parse_idle_lines_mixed:
  "a + n \<le> 31 \<Longrightarrow>
   parse_schedule strtod_dec (replicate n ''aa 8 0\<newline>'') (mixed_schedule a 0) =
     Inr (mixed_schedule (a + n) 0)"
proof (induction n arbitrary: a)
  case 0
  then show ?case by simp
next
  case (Suc n)
  from Suc.prems have "a < 31" "Suc a + n \<le> 31" by simp_all
  with Suc.IH [of "Suc a"] show ?case
    by (simp add: parse_idle_line add_idle_mixed)
qed

lemma parse_rare_lines_mixed:
  "b + n \<le> 31 \<Longrightarrow>
   parse_schedule strtod_dec (replicate n ''bb 16 0\<newline>'') (mixed_schedule 31 b) =
     Inr (mixed_schedule 31 (b + n))"
proof (induction n arbitrary: b)
  case 0
  then show ?case by simp
next
  case (Suc n)
  from Suc.prems have "b < 31" "Suc b + n \<le> 31" by simp_all
  with Suc.IH [of "Suc b"] show ?case
    by (simp add: parse_rare_line add_rare_mixed)
qed

lemma sixty_four_tasks:
  "parse_schedule strtod_dec sixty_four_lines (init_schedule 8 []) = Inr (mixed_schedule 31 31)"
  using parse_idle_lines_mixed [of 0 31] parse_rare_lines_mixed [of 0 31]
  by (simp only: sixty_four_lines_def parse_schedule_append two_busy) simp

lemma table_full: "length (tasks (mixed_schedule 31 31)) = MAX_TASKS"
  by (simp add: mixed_schedule_def MAX_TASKS_def)


lemma late_slot_count: "slot_count 16 overrun_schedule = Inr (1, 2, overrun_schedule)"
  by (simp add: slot_count_def overrun_schedule_def mixed_schedule_def)

lemma late_best_tick: "find_best_tick 16 1 1 overrun_schedule = Inr 0"
  by (simp add: overrun_schedule_def mixed_schedule_def find_best_tick_def best_step_def
      total_len_def candidate_len_def upt_8 empty_tick_def Let_def)

lemma late_place_slots:
  "case place_slots 1 0 2 64 16 overrun_schedule of
     Inl e \<Rightarrow> False
   | Inr s \<Rightarrow> slots (ticks s ! 0) =
               [\<lparr>slot_divider = 1, slot_task = 0\<rparr>, \<lparr>slot_divider = 2, slot_task = 64\<rparr>]"
  by (simp add: overrun_schedule_def mixed_schedule_def alloc_slot_def Let_def
      MAX_SLOTS_PER_TICK_def)

text \<open>
  Claim C8.  A tick should accept 32 slots and the task table 64 tasks, one more being a
  fatal error in both cases.  \<^verbatim>\<open>alloc_slot\<close> tests \<^verbatim>\<open>n_slots + 1 == MAX_SLOTS_PER_TICK\<close> before
  it appends: after 31 lines \<^verbatim>\<open>aa 8 0\<close>, which all go to tick 0, that tick holds 31 slots, and
  the 32nd line ends the program with \<^verbatim>\<open>too many tasks scheduled in same tick\<close>.  The task
  table has no test at all: after the 64 lines of \<open>sixty_four_lines\<close> the table holds 64
  tasks, and on the further line \<^verbatim>\<open>bb 16 1\<close> \<^verbatim>\<open>add_task\<close> writes \<^verbatim>\<open>tasks[64]\<close>, where the embedding
  stops.  No diagnostic of the rest of \<^verbatim>\<open>add_task\<close> takes the place of the missing one: with
  the entry written behind the table (\<open>overrun_schedule\<close>), the divider is 2, which is the
  maximal divider already, \<^verbatim>\<open>find_best_tick\<close> returns tick 0, which holds one slot, and
  \<^verbatim>\<open>alloc_slot\<close> gives it a second one for task 64.
\<close>

theorem table_caps_not_enforced:
  "parse_schedule strtod_dec (replicate 31 ''aa 8 0\<newline>'') (init_schedule 8 []) =
     Inr (idle_schedule 31) \<and>
   length (slots (ticks (idle_schedule 31) ! 0)) = 31 \<and>
   31 < MAX_SLOTS_PER_TICK \<and>
   parse_schedule strtod_dec (replicate 32 ''aa 8 0\<newline>'') (init_schedule 8 []) =
     Inl Exit_too_many_slots \<and>
   parse_schedule strtod_dec sixty_four_lines (init_schedule 8 []) =
     Inr (mixed_schedule 31 31) \<and>
   length (tasks (mixed_schedule 31 31)) = MAX_TASKS \<and>
   parse_schedule strtod_dec (sixty_four_lines @ [''bb 16 1\<newline>'']) (init_schedule 8 []) =
     Inl Task_table_overrun \<and>
   \<not> fatal_diagnostic Task_table_overrun \<and>
   slot_count 16 overrun_schedule = Inr (1, 2, overrun_schedule) \<and>
   find_best_tick 16 1 1 overrun_schedule = Inr 0 \<and>
   length (slots (ticks overrun_schedule ! 0)) = 1 \<and>
   (case place_slots 1 0 2 64 16 overrun_schedule of
      Inl e \<Rightarrow> False
    | Inr s \<Rightarrow> slots (ticks s ! 0) =
                [\<lparr>slot_divider = 1, slot_task = 0\<rparr>, \<lparr>slot_divider = 2, slot_task = 64\<rparr>])"
proof -
  let ?L = "''aa 8 0\<newline>''"
  have one: "parse_schedule strtod_dec [?L] (init_schedule 8 []) = Inr (idle_schedule 1)"
    by (simp add: parse_idle_line first_idle)
  have r31: "replicate 31 ?L = [?L] @ replicate 30 ?L"
    using replicate_add [of 1 30 ?L] by simp
  have a: "parse_schedule strtod_dec (replicate 31 ?L) (init_schedule 8 []) = Inr (idle_schedule 31)"
    using parse_idle_lines [of 1 30]
    by (simp only: r31 parse_schedule_append one) simp
  have r32: "replicate 32 ?L = replicate 31 ?L @ [?L]"
    using replicate_add [of 31 1 ?L] by simp
  have b: "parse_schedule strtod_dec (replicate 32 ?L) (init_schedule 8 []) =
     Inl Exit_too_many_slots"
    by (simp only: r32 parse_schedule_append a) (simp add: parse_idle_line add_idle_full)
  have "add_task ''bb'' 16 1 (mixed_schedule 31 31) = Inl Task_table_overrun"
    by (rule task_table_overrun [of _ _ "''bb''" "''bb''" 0])
      (simp_all add: mixed_schedule_def strip_conditional_def strip_unrolled_def MAX_TASKS_def)
  then have c: "parse_schedule strtod_dec (sixty_four_lines @ [''bb 16 1\<newline>''])
       (init_schedule 8 []) = Inl Task_table_overrun"
    by (simp only: parse_schedule_append sixty_four_tasks) (simp add: parse_late_line)
  have d: "length (slots (ticks overrun_schedule ! 0)) = 1"
    by (simp add: overrun_schedule_def mixed_schedule_def)
  have e: "length (slots (ticks (idle_schedule 31) ! 0)) = 31" "31 < MAX_SLOTS_PER_TICK"
    "\<not> fatal_diagnostic Task_table_overrun"
    by (simp_all add: idle_schedule_def MAX_SLOTS_PER_TICK_def)
  show ?thesis
    by (intro conjI a b c d e sixty_four_tasks table_full late_slot_count late_best_tick
        late_place_slots)
qed

subsection \<open>The placement loop\<close>











subsection \<open>Every task is placed\<close>







lemma scan_rare_schedule_parsed:
  "parse_schedule strtod_dec [''scan 1 0.1\<newline>'', ''rare 16 0.2\<newline>''] (init_schedule 8 []) =
     Inr scan_rare_schedule"
  by code_simp



end
